theory Spec2Isabelle
  imports Complex_Main "HOL-Library.Word"
begin

section \<open>Values shared by the pipeline\<close>

text \<open>
  The exceptions that \<^verbatim>\<open>deepface/commons/functions.py\<close> and the libraries it calls can
  raise. \<open>ValueError\<close> carries the argument tuple of the exception, one string per
  argument; \<open>Raised\<close> is any other exception a library call may throw.
\<close>

datatype error =
    ValueError "string list"
  | IndexError
  | TypeError
  | AttributeError
  | ZeroDivisionError
  | CvError
  | Raised string

text \<open>
  A numpy array: its \<open>shape\<close> tuple and its elements in row-major order. The shape is
  kept apart from the elements, as numpy does, so that an array of shape \<open>(0, 5, 3)\<close> is
  different from one of shape \<open>(0, 0, 3)\<close> although neither holds an element.
\<close>

datatype 'a ndarray = NdArray (shape: "nat list") (elems: "'a list")

text \<open>\<^verbatim>\<open>a.shape[i]\<close>: indexing the shape tuple raises IndexError past its end.\<close>

definition axis :: "'a ndarray \<Rightarrow> nat \<Rightarrow> error + nat" where
  "axis a i = (if i < length (shape a) then Inr (shape a ! i) else Inl IndexError)"

type_synonym byte = "8 word"

subsection \<open>Printing a shape\<close>

text \<open>
  The f-string of \<^verbatim>\<open>detect_faces\<close> prints \<^verbatim>\<open>img.shape\<close>, a tuple of ints, the way
  Python's \<^verbatim>\<open>repr\<close> does: \<^verbatim>\<open>()\<close>, \<^verbatim>\<open>(7,)\<close>, \<^verbatim>\<open>(0, 5, 3)\<close>.
\<close>

definition digit :: "nat \<Rightarrow> char" where
  "digit d = char_of (of_char (CHR ''0'') + d)"

function str_nat :: "nat \<Rightarrow> string" where
  "str_nat n = (if n < 10 then [digit n] else str_nat (n div 10) @ [digit (n mod 10)])"
  by pat_completeness auto
termination
  by (relation "measure id") auto

fun join_comma :: "string list \<Rightarrow> string" where
  "join_comma [] = []"
| "join_comma [x] = x"
| "join_comma (x # y # ys) = x @ '', '' @ join_comma (y # ys)"

definition repr_tuple :: "nat list \<Rightarrow> string" where
  "repr_tuple xs =
     (case xs of
        [] \<Rightarrow> ''()''
      | [x] \<Rightarrow> ''('' @ str_nat x @ '',)''
      | _ \<Rightarrow> ''('' @ join_comma (map str_nat xs) @ '')'')"

section \<open>Image loader\<close>

text \<open>
  What \<^verbatim>\<open>load_image\<close> is handed: a Python \<^verbatim>\<open>str\<close> (a path or a data URI) or a numpy
  array.
\<close>

datatype 'a descriptor = Str string | Arr "'a ndarray"

text \<open>
  The world outside the module, as far as the loader reads it: the file system test
  \<^verbatim>\<open>os.path.isfile\<close>, \<^verbatim>\<open>cv2.imread\<close>, \<^verbatim>\<open>base64.b64decode\<close> and \<^verbatim>\<open>cv2.imdecode\<close>
  (with flag \<^verbatim>\<open>IMREAD_COLOR\<close>). The two cv2 decoders return \<^verbatim>\<open>None\<close> for bytes they
  cannot decode. The last field is numpy's answer to the test of line 76 on an array,
  \<^verbatim>\<open>img[0:11] == "data:image/"\<close> taken as the condition of an \<^verbatim>\<open>if\<close>: it depends on
  the numpy release, see \<open>numpy_scalar_eq\<close> and \<open>numpy_elementwise_eq\<close> below.
\<close>

record 'a env =
  isfile :: "string \<Rightarrow> bool"
  imread :: "string \<Rightarrow> error + 'a ndarray option"
  b64decode :: "string \<Rightarrow> error + byte list"
  imdecode :: "byte list \<Rightarrow> error + 'a ndarray option"
  array_eq_str :: "'a ndarray \<Rightarrow> error + bool"

text \<open>
  The two answers of numpy for a numeric array. Releases before 1.25 give the scalar
  \<^verbatim>\<open>False\<close> for the comparison of such an array with a \<^verbatim>\<open>str\<close>. From release 1.25 on
  the comparison is an array of \<^verbatim>\<open>False\<close>, one for each element of the slice
  \<^verbatim>\<open>img[0:11]\<close>, and the \<^verbatim>\<open>if\<close> asks for its truth value: that raises ValueError when
  the array has more than one element, and is \<^verbatim>\<open>False\<close> for one element or none (none
  with a warning, up to release 2.1).
\<close>

definition numpy_scalar_eq :: "'a ndarray \<Rightarrow> error + bool" where
  "numpy_scalar_eq a = Inr False"

definition ambiguous_msg :: string where
  "ambiguous_msg = ''The truth value of an array with more than one element is ambiguous. Use a.any() or a.all()''"

definition numpy_elementwise_eq :: "'a ndarray \<Rightarrow> error + bool" where
  "numpy_elementwise_eq a =
     (case shape a of
        [] \<Rightarrow> Inl IndexError
      | n # ns \<Rightarrow>
          if 1 < min 11 n * prod_list ns then Inl (ValueError [ambiguous_msg])
          else Inr False)"

text \<open>\<^verbatim>\<open>s.split(',')\<close>: the pieces between the commas, at least one piece.\<close>

fun split_comma :: "string \<Rightarrow> string list" where
  "split_comma [] = [] # []"
| "split_comma (c # cs) =
     (if c = CHR '','' then [] # split_comma cs
      else (case split_comma cs of
              [] \<Rightarrow> [c] # []
            | p # ps \<Rightarrow> (c # p) # ps))"

text \<open>
  Line 64: \<^verbatim>\<open>encoded_data = uri.split(',')[1]\<close>, the second piece, IndexError when the
  string has no comma.
\<close>

definition encoded_data :: "string \<Rightarrow> error + string" where
  "encoded_data uri =
     (case split_comma uri of
        _ # piece # _ \<Rightarrow> Inr piece
      | _ \<Rightarrow> Inl IndexError)"

text \<open>
  \<^verbatim>\<open>np.fromstring(bytes, np.uint8)\<close> reads the bytes as they are, so the byte list goes
  to \<^verbatim>\<open>cv2.imdecode\<close> unchanged.
\<close>

definition loadBase64Img :: "'a env \<Rightarrow> string \<Rightarrow> error + 'a ndarray option" where
  "loadBase64Img env uri =
     (case encoded_data uri of
        Inl e \<Rightarrow> Inl e
      | Inr payload \<Rightarrow>
          (case b64decode env payload of
             Inl e \<Rightarrow> Inl e
           | Inr nparr \<Rightarrow> imdecode env nparr))"

text \<open>
  \<^verbatim>\<open>len(img)\<close>: the number of characters of a string, the first axis of an array, and
  TypeError for an array without axes.
\<close>

fun py_len :: "'a descriptor \<Rightarrow> error + nat" where
  "py_len (Str s) = Inr (length s)"
| "py_len (Arr a) = (case shape a of [] \<Rightarrow> Inl TypeError | n # _ \<Rightarrow> Inr n)"

text \<open>
  \<^verbatim>\<open>img[0:11] == "data:image/"\<close> as the condition of line 76. For a string it compares
  the first eleven characters. For an array it is numpy's answer, which may be an
  exception.
\<close>

fun has_prefix :: "'a env \<Rightarrow> 'a descriptor \<Rightarrow> error + bool" where
  "has_prefix env (Str s) = Inr (take 11 s = ''data:image/'')"
| "has_prefix env (Arr a) = array_eq_str env a"

text \<open>
  \<^verbatim>\<open>load_image\<close>, lines 70 to 90. \<open>base64_img\<close> is the flag of line 76, whose \<^verbatim>\<open>and\<close>
  evaluates the comparison only when the length is more than eleven; the flag
  \<^verbatim>\<open>exact_image\<close> of line 72 (the module of the value's type is numpy) is the
  constructor \<open>Arr\<close>. A string goes to the base64 decoder when \<open>base64_img\<close> is set and
  is read as a path otherwise. The test of line 76 is made on an array as well: when
  it raises, so does \<open>load_image\<close>; were it true, \<^verbatim>\<open>loadBase64Img\<close> would ask the array
  for its method \<^verbatim>\<open>split\<close>, an AttributeError; when it is false the array is returned
  as it is.
\<close>

definition load_image :: "'a env \<Rightarrow> 'a descriptor \<Rightarrow> error + 'a ndarray option" where
  "load_image env img =
     (case py_len img of
        Inl e \<Rightarrow> Inl e
      | Inr n \<Rightarrow>
          (case (if 11 < n then has_prefix env img else Inr False) of
             Inl e \<Rightarrow> Inl e
           | Inr base64_img \<Rightarrow>
               (case img of
                  Str s \<Rightarrow>
                    if base64_img then loadBase64Img env s
                    else if isfile env s then imread env s
                    else Inl (ValueError [''Confirm that '', s, '' exists''])
                | Arr a \<Rightarrow>
                    if base64_img then Inl AttributeError
                    else Inr (Some a))))"

section \<open>Detector adapter\<close>

text \<open>
  The module \<^verbatim>\<open>deepface.detectors.FaceDetector\<close> is a collaborator of this file: its two
  functions are parameters. It keeps the detectors it has built in a global variable,
  so both functions take and return that module's state \<open>'c\<close>; \<open>'h\<close> is a detector
  handle. A face is a crop with its region, a list of integers.
\<close>

type_synonym 'a face = "'a ndarray \<times> int list"

record ('a, 'h, 'c) FaceDetector =
  build_model :: "string \<Rightarrow> 'c \<Rightarrow> (error + 'h) \<times> 'c"
  fd_detect_faces :: "'h \<Rightarrow> string \<Rightarrow> 'a ndarray \<Rightarrow> bool \<Rightarrow> 'c \<Rightarrow> (error + 'a face list) \<times> 'c"

text \<open>
  The state \<^verbatim>\<open>detect_faces\<close> runs in: the detector module's state and the log of the
  calls made to that module, in order.
\<close>

datatype fd_call = Build string | Detect string bool

record 'c fd_state =
  detectors :: 'c
  calls :: "fd_call list"

text \<open>The two messages of \<^verbatim>\<open>detect_faces\<close>, lines 118 and 125.\<close>

definition no_face_msg :: string where
  "no_face_msg = ''No face could be detected. Please confirm that the picture is a face photo or consider to set enforce_detection param to False.''"

definition degenerate_msg :: "nat list \<Rightarrow> string" where
  "degenerate_msg shp =
     ''Detected face shape is '' @ repr_tuple shp @ '', Consider to set enforce_detection argument to False.''"

text \<open>
  The errors of the specification's taxonomy, as this file raises them: both are a
  \<^verbatim>\<open>ValueError\<close> with one argument.
\<close>

definition NoFaceDetectedError :: error where
  "NoFaceDetectedError = ValueError [no_face_msg]"

definition DegenerateFaceError :: "nat list \<Rightarrow> error" where
  "DegenerateFaceError shp = ValueError [degenerate_msg shp]"

text \<open>\<^verbatim>\<open>[0, 0, img.shape[0], img.shape[1]]\<close>, lines 97 and 121.\<close>

definition whole_image_region :: "'a ndarray \<Rightarrow> error + int list" where
  "whole_image_region img =
     (case axis img 0 of
        Inl e \<Rightarrow> Inl e
      | Inr h \<Rightarrow>
          (case axis img 1 of
             Inl e \<Rightarrow> Inl e
           | Inr w \<Rightarrow> Inr [0, 0, int h, int w]))"

text \<open>
  \<^verbatim>\<open>img.shape[0] == 0 or img.shape[1] == 0\<close>: the second axis is read only when the
  first is not zero.
\<close>

definition zero_extent :: "'a ndarray \<Rightarrow> error + bool" where
  "zero_extent img =
     (case axis img 0 of
        Inl e \<Rightarrow> Inl e
      | Inr h \<Rightarrow>
          if h = 0 then Inr True
          else (case axis img 1 of
                  Inl e \<Rightarrow> Inl e
                | Inr w \<Rightarrow> Inr (w = 0)))"

text \<open>
  The loop of lines 123 to 125: the first exception it raises, if any. The test of the
  shape comes before the test of \<^verbatim>\<open>enforce_detection\<close>.
\<close>

fun check_faces :: "bool \<Rightarrow> 'a face list \<Rightarrow> error option" where
  "check_faces enforce_detection [] = None"
| "check_faces enforce_detection ((img, region) # rest) =
     (case zero_extent img of
        Inl e \<Rightarrow> Some e
      | Inr z \<Rightarrow>
          if z \<and> enforce_detection then Some (DegenerateFaceError (shape img))
          else check_faces enforce_detection rest)"

text \<open>
  Lines 115 to 121, as the source has them: with no face, the exception is raised when
  \<^verbatim>\<open>enforce_detection\<close> is false, and the whole image stands in for the face when it
  is true.
\<close>

definition zero_faces :: "'a ndarray \<Rightarrow> bool \<Rightarrow> 'a face list \<Rightarrow> error + 'a face list" where
  "zero_faces img enforce_detection faces =
     (if length faces = 0 then
        (if \<not> enforce_detection then Inl NoFaceDetectedError
         else (case whole_image_region img of
                 Inl e \<Rightarrow> Inl e
               | Inr r \<Rightarrow> Inr [(img, r)]))
      else Inr faces)"

text \<open>
  \<^verbatim>\<open>detect_faces\<close>, lines 93 to 127. An exception of \<^verbatim>\<open>FaceDetector.build_model\<close>
  propagates; any exception of \<^verbatim>\<open>FaceDetector.detect_faces\<close> is caught by the bare
  \<^verbatim>\<open>except\<close> and leaves the empty list.
\<close>

definition detect_faces ::
  "('a, 'h, 'c) FaceDetector \<Rightarrow> 'a env \<Rightarrow> 'a descriptor \<Rightarrow> bool \<Rightarrow> string \<Rightarrow> bool \<Rightarrow>
   'c fd_state \<Rightarrow> (error + 'a face list) \<times> 'c fd_state" where
  "detect_faces FD env img0 enforce_detection detector_backend align s =
     (case load_image env img0 of
        Inl e \<Rightarrow> (Inl e, s)
      | Inr None \<Rightarrow> (Inl AttributeError, s)
      | Inr (Some img) \<Rightarrow>
          (case whole_image_region img of
             Inl e \<Rightarrow> (Inl e, s)
           | Inr img_region \<Rightarrow>
               if detector_backend = ''skip'' then (Inr [(img, img_region)], s)
               else
                 (case build_model FD detector_backend (detectors s) of
                    (Inl e, c1) \<Rightarrow>
                      (Inl e, \<lparr>detectors = c1, calls = calls s @ [Build detector_backend]\<rparr>)
                  | (Inr face_detector, c1) \<Rightarrow>
                      (case fd_detect_faces FD face_detector detector_backend img align c1 of
                         (r, c2) \<Rightarrow>
                           (let s2 = \<lparr>detectors = c2,
                                      calls = calls s @ [Build detector_backend,
                                                         Detect detector_backend align]\<rparr>;
                                faces = (case r of Inl _ \<Rightarrow> [] | Inr fs \<Rightarrow> fs)
                            in case zero_faces img enforce_detection faces of
                                 Inl e \<Rightarrow> (Inl e, s2)
                               | Inr faces' \<Rightarrow>
                                   (case check_faces enforce_detection faces' of
                                      Some e \<Rightarrow> (Inl e, s2)
                                    | None \<Rightarrow> (Inr faces', s2)))))))"

section \<open>Geometric normalizer\<close>

text \<open>
  \<^verbatim>\<open>reshape_face\<close> computes its scale factor in Python floats. The four operations it
  uses are parameters, so that nothing below depends on how a float rounds:
  \<open>truediv a b\<close> is \<^verbatim>\<open>a / b\<close> on two ints with \<open>b\<close> not zero, \<open>fmin\<close> is \<^verbatim>\<open>min\<close>,
  \<open>imul n x\<close> is \<^verbatim>\<open>n * x\<close> with \<open>n\<close> an int, and \<open>trunc_int\<close> is \<^verbatim>\<open>int(x)\<close>.
\<close>

record 'q pyfloat =
  truediv :: "nat \<Rightarrow> nat \<Rightarrow> 'q"
  fmin :: "'q \<Rightarrow> 'q \<Rightarrow> 'q"
  imul :: "nat \<Rightarrow> 'q \<Rightarrow> 'q"
  trunc_int :: "'q \<Rightarrow> int"

text \<open>The same operations without rounding, on the rationals.\<close>

definition exact_float :: "rat pyfloat" where
  "exact_float =
     \<lparr>truediv = (\<lambda>a b. of_nat a / of_nat b),
      fmin = (\<lambda>x y. if y < x then y else x),
      imul = (\<lambda>n x. of_nat n * x),
      trunc_int = (\<lambda>x. if x < 0 then \<lceil>x\<rceil> else \<lfloor>x\<rfloor>)\<rparr>"

text \<open>
  The pixels that the image libraries compute are parameters too: the pixels of
  \<^verbatim>\<open>cv2.cvtColor(img, cv2.COLOR_BGR2GRAY)\<close>, the pixels of \<^verbatim>\<open>cv2.resize(img, (w, h))\<close>,
  the conversion to float of \<^verbatim>\<open>image.img_to_array\<close> and the division by 255 in the
  tensor's type. The shapes of the results are written out below.
\<close>

record ('a, 'f) imglib =
  gray_px :: "'a ndarray \<Rightarrow> 'a list"
  resize_px :: "'a ndarray \<Rightarrow> nat \<Rightarrow> nat \<Rightarrow> 'a list"
  to_float :: "'a \<Rightarrow> 'f"
  div255 :: "'f \<Rightarrow> 'f"

text \<open>
  \<^verbatim>\<open>cv2.cvtColor(img, cv2.COLOR_BGR2GRAY)\<close> takes a non-empty image of three or four
  channels to one of the same height and width without a channel axis, and raises
  \<^verbatim>\<open>cv2.error\<close> on anything else.
\<close>

definition cvtColor_gray :: "('a, 'f) imglib \<Rightarrow> 'a ndarray \<Rightarrow> error + 'a ndarray" where
  "cvtColor_gray lib img =
     (case shape img of
        [h, w, c] \<Rightarrow>
          if 0 < h \<and> 0 < w \<and> (c = 3 \<or> c = 4) then Inr (NdArray [h, w] (gray_px lib img))
          else Inl CvError
      | _ \<Rightarrow> Inl CvError)"

text \<open>
  \<^verbatim>\<open>cv2.resize(img, dsize)\<close> with \<open>dsize = (width, height)\<close>: the source must not be empty
  and both components of \<open>dsize\<close> must be positive, else \<^verbatim>\<open>cv2.error\<close>. The result has
  \<open>height\<close> rows and \<open>width\<close> columns; an image of one channel comes back without its
  channel axis.
\<close>

definition cv2_resize :: "('a, 'f) imglib \<Rightarrow> 'a ndarray \<Rightarrow> int \<times> int \<Rightarrow> error + 'a ndarray" where
  "cv2_resize lib img dsize =
     (let dw = fst dsize; dh = snd dsize in
      case shape img of
        [h, w] \<Rightarrow>
          if 0 < h \<and> 0 < w \<and> 0 < dw \<and> 0 < dh
          then Inr (NdArray [nat dh, nat dw] (resize_px lib img (nat dw) (nat dh)))
          else Inl CvError
      | [h, w, c] \<Rightarrow>
          if 0 < h \<and> 0 < w \<and> 0 < c \<and> c \<le> 512 \<and> 0 < dw \<and> 0 < dh
          then Inr (NdArray (if c = 1 then [nat dh, nat dw] else [nat dh, nat dw, c])
                      (resize_px lib img (nat dw) (nat dh)))
          else Inl CvError
      | _ \<Rightarrow> Inl CvError)"

text \<open>
  Below, \<open>tsize\<close> is the parameter \<^verbatim>\<open>target_size\<close> of the source, a pair of positive
  ints. Lines 200 to 204 on a height \<open>h\<close> and a width \<open>w\<close>, neither zero: the \<open>dsize\<close> handed
  to \<^verbatim>\<open>cv2.resize\<close>, width first.
\<close>

definition scaled :: "'q pyfloat \<Rightarrow> nat \<Rightarrow> nat \<Rightarrow> nat \<times> nat \<Rightarrow> int \<times> int" where
  "scaled fl h w tsize =
     (let factor_0 = truediv fl (fst tsize) h;
          factor_1 = truediv fl (snd tsize) w;
          factor = fmin fl factor_0 factor_1
      in (trunc_int fl (imul fl w factor), trunc_int fl (imul fl h factor)))"

text \<open>
  Lines 200 to 205 on an image: the divisions raise ZeroDivisionError on an axis of
  length zero, in the order of the source.
\<close>

definition resize_to_fit ::
  "'q pyfloat \<Rightarrow> ('a, 'f) imglib \<Rightarrow> 'a ndarray \<Rightarrow> nat \<times> nat \<Rightarrow> error + 'a ndarray" where
  "resize_to_fit fl lib img tsize =
     (case axis img 0 of
        Inl e \<Rightarrow> Inl e
      | Inr h \<Rightarrow>
          if h = 0 then Inl ZeroDivisionError
          else (case axis img 1 of
                  Inl e \<Rightarrow> Inl e
                | Inr w \<Rightarrow>
                    if w = 0 then Inl ZeroDivisionError
                    else cv2_resize lib img (scaled fl h w tsize)))"

text \<open>
  \<^verbatim>\<open>np.pad(img, pad_width, 'constant')\<close> on row-major elements: \<open>pad_nd\<close> puts, on each
  axis, as many zero slices before and after as the pair of that axis says.
\<close>

fun pad_nd :: "nat list \<Rightarrow> (nat \<times> nat) list \<Rightarrow> 'a::zero list \<Rightarrow> 'a list" where
  "pad_nd (n # ns) ((pre, post) # ps) xs =
     (let inner = prod_list ns;
          inner' = prod_list (map (\<lambda>(m, (b, a)). b + m + a) (zip ns ps));
          slices = map (\<lambda>i. take inner (drop (i * inner) xs)) [0..<n]
      in replicate (pre * inner') 0 @ concat (map (pad_nd ns ps) slices)
           @ replicate (post * inner') 0)"
| "pad_nd ns ps xs = xs"

text \<open>
  numpy wants one pair for each axis here and raises ValueError on a negative width.
\<close>

definition np_pad :: "'a::zero ndarray \<Rightarrow> (int \<times> int) list \<Rightarrow> error + 'a ndarray" where
  "np_pad img pad_width =
     (if length pad_width = length (shape img) \<and> list_all (\<lambda>(b, a). 0 \<le> b \<and> 0 \<le> a) pad_width
      then (let ps = map (\<lambda>(b, a). (nat b, nat a)) pad_width
            in Inr (NdArray (map (\<lambda>(m, (b, a)). b + m + a) (zip (shape img) ps))
                      (pad_nd (shape img) ps (elems img))))
      else Inl (Raised ''ValueError''))"

text \<open>
  Lines 208 to 215: the \<open>pad_width\<close> argument of \<^verbatim>\<open>np.pad\<close>. \<open>div\<close> on the integers
  rounds down, as \<^verbatim>\<open>//\<close> does.
\<close>

definition padding :: "'a ndarray \<Rightarrow> nat \<times> nat \<Rightarrow> bool \<Rightarrow> error + (int \<times> int) list" where
  "padding img tsize grayscale =
     (case axis img 0 of
        Inl e \<Rightarrow> Inl e
      | Inr h \<Rightarrow>
          (case axis img 1 of
             Inl e \<Rightarrow> Inl e
           | Inr w \<Rightarrow>
               (let diff_0 = int (fst tsize) - int h;
                    diff_1 = int (snd tsize) - int w
                in if grayscale = False
                   then Inr [(diff_0 div 2, diff_0 - diff_0 div 2),
                             (diff_1 div 2, diff_1 - diff_1 div 2), (0, 0)]
                   else Inr [(diff_0 div 2, diff_0 - diff_0 div 2),
                             (diff_1 div 2, diff_1 - diff_1 div 2)])))"

text \<open>
  Lines 218 and 219: when the first two axes are not the target, the image is resized
  with \<^verbatim>\<open>target_size\<close> as \<open>dsize\<close>.
\<close>

definition double_check ::
  "('a, 'f) imglib \<Rightarrow> 'a ndarray \<Rightarrow> nat \<times> nat \<Rightarrow> error + 'a ndarray" where
  "double_check lib img tsize =
     (if take 2 (shape img) = [fst tsize, snd tsize] then Inr img
      else cv2_resize lib img (int (fst tsize), int (snd tsize)))"

text \<open>
  Lines 225 to 227. \<^verbatim>\<open>image.img_to_array\<close> returns a float array of three axes: an
  image of two axes gets a channel axis of length one, any other number of axes is a
  ValueError. \<^verbatim>\<open>np.expand_dims(_, axis=0)\<close> puts the batch axis in front.
\<close>

definition img_to_array :: "('a, 'f) imglib \<Rightarrow> 'a ndarray \<Rightarrow> error + 'f ndarray" where
  "img_to_array lib img =
     (case shape img of
        [h, w] \<Rightarrow> Inr (NdArray [h, w, 1] (map (to_float lib) (elems img)))
      | [h, w, c] \<Rightarrow> Inr (NdArray [h, w, c] (map (to_float lib) (elems img)))
      | _ \<Rightarrow> Inl (Raised ''ValueError''))"

definition to_tensor :: "('a, 'f) imglib \<Rightarrow> 'a ndarray \<Rightarrow> error + 'f ndarray" where
  "to_tensor lib img =
     (case img_to_array lib img of
        Inl e \<Rightarrow> Inl e
      | Inr img_pixels \<Rightarrow>
          Inr (NdArray (1 # shape img_pixels) (map (div255 lib) (elems img_pixels))))"

text \<open>
  Lines 192 to 205: the image that reaches the padding, gray first when asked.
\<close>

definition resized_face ::
  "'q pyfloat \<Rightarrow> ('a, 'f) imglib \<Rightarrow> 'a ndarray \<Rightarrow> nat \<times> nat \<Rightarrow> bool \<Rightarrow> error + 'a ndarray" where
  "resized_face fl lib img tsize grayscale =
     (case (if grayscale = True then cvtColor_gray lib img else Inr img) of
        Inl e \<Rightarrow> Inl e
      | Inr img1 \<Rightarrow> resize_to_fit fl lib img1 tsize)"

text \<open>\<^verbatim>\<open>reshape_face\<close>, lines 191 to 231.\<close>

definition reshape_face ::
  "'q pyfloat \<Rightarrow> ('a::zero, 'f) imglib \<Rightarrow> 'a ndarray \<Rightarrow> int list \<Rightarrow> nat \<times> nat \<Rightarrow> bool \<Rightarrow>
   error + 'f ndarray \<times> int list" where
  "reshape_face fl lib img region tsize grayscale =
     (case resized_face fl lib img tsize grayscale of
        Inl e \<Rightarrow> Inl e
      | Inr img2 \<Rightarrow>
          (case padding img2 tsize grayscale of
             Inl e \<Rightarrow> Inl e
           | Inr pad_width \<Rightarrow>
               (case np_pad img2 pad_width of
                  Inl e \<Rightarrow> Inl e
                | Inr img3 \<Rightarrow>
                    (case double_check lib img3 tsize of
                       Inl e \<Rightarrow> Inl e
                     | Inr img4 \<Rightarrow>
                         (case to_tensor lib img4 of
                            Inl e \<Rightarrow> Inl e
                          | Inr img_pixels \<Rightarrow> Inr (img_pixels, region))))))"

section \<open>Pixel normalizer\<close>

text \<open>
  \<^verbatim>\<open>normalize_input\<close> changes the array it is given, so arrays live in a store: every
  reference denotes an array, \<open>heap s r\<close>, and \<open>fresh s\<close> is the next reference that a
  new array gets.
\<close>

record 'f store =
  heap :: "nat \<Rightarrow> 'f ndarray"
  fresh :: nat

text \<open>
  The arithmetic of numpy on the elements of a float array is a parameter: \<open>lit\<close> turns
  a Python number into an element, \<open>fmul\<close>, \<open>fsub\<close> and \<open>fdiv\<close> are \<^verbatim>\<open>*\<close>, \<^verbatim>\<open>-\<close> and
  \<^verbatim>\<open>/\<close> on two elements, \<open>mean\<close> and \<open>std\<close> are \<^verbatim>\<open>img.mean()\<close> and \<^verbatim>\<open>img.std()\<close>.
\<close>

record 'f npfloat =
  lit :: "rat \<Rightarrow> 'f"
  fmul :: "'f \<Rightarrow> 'f \<Rightarrow> 'f"
  fsub :: "'f \<Rightarrow> 'f \<Rightarrow> 'f"
  fdiv :: "'f \<Rightarrow> 'f \<Rightarrow> 'f"
  mean :: "'f list \<Rightarrow> 'f"
  std :: "'f list \<Rightarrow> 'f"

text \<open>
  The same arithmetic without rounding, on the reals. Where numpy gives \<^verbatim>\<open>nan\<close> or
  \<^verbatim>\<open>inf\<close> (the mean of no element, a division by a deviation of zero) this instance
  has HOL's \<open>x / 0 = 0\<close>; nothing below evaluates it there.
\<close>

definition exact_np :: "real npfloat" where
  "exact_np =
     \<lparr>lit = of_rat,
      fmul = (\<lambda>x y. x * y),
      fsub = (\<lambda>x y. x - y),
      fdiv = (\<lambda>x y. x / y),
      mean = (\<lambda>xs. sum_list xs / of_nat (length xs)),
      std = (\<lambda>xs. sqrt (sum_list (map (\<lambda>x. (x - sum_list xs / of_nat (length xs))\<^sup>2) xs)
                          / of_nat (length xs)))\<rparr>"

text \<open>
  An array with every element replaced: \<open>f i x\<close> is the new value of the element \<open>x\<close>
  at position \<open>i\<close> of the row-major order. \<open>assign_inplace\<close> does it to the array that a
  reference denotes, as \<^verbatim>\<open>img *= 255\<close> does; no other array changes and none is made.
\<close>

definition elementwise :: "(nat \<Rightarrow> 'f \<Rightarrow> 'f) \<Rightarrow> 'f ndarray \<Rightarrow> 'f ndarray" where
  "elementwise f a = NdArray (shape a) (map (\<lambda>(i, x). f i x) (enumerate 0 (elems a)))"

definition assign_inplace :: "(nat \<Rightarrow> 'f \<Rightarrow> 'f) \<Rightarrow> nat \<Rightarrow> 'f store \<Rightarrow> 'f store" where
  "assign_inplace f r s = s\<lparr>heap := (heap s)(r := elementwise f (heap s r))\<rparr>"

text \<open>
  \<^verbatim>\<open>img[..., k] -= c\<close>: the elements whose last index is \<open>k\<close> are those at the
  positions \<open>i\<close> with \<open>i mod n = k\<close>, \<open>n\<close> being the length of the last axis. The index
  \<open>k\<close> must be within that axis, and an array without axes has no last axis:
  IndexError.
\<close>

definition channel_sub :: "'f npfloat \<Rightarrow> nat \<Rightarrow> rat \<Rightarrow> nat \<Rightarrow> 'f store \<Rightarrow> error + 'f store" where
  "channel_sub np k c r s =
     (case shape (heap s r) of
        [] \<Rightarrow> Inl IndexError
      | d # ds \<Rightarrow>
          (let n = last (d # ds) in
           if k < n
           then Inr (assign_inplace (\<lambda>i x. if i mod n = k then fsub np x (lit np c) else x) r s)
           else Inl IndexError))"

text \<open>
  The three statements of lines 154 to 156 and of lines 160 to 162, in order: an
  exception leaves the store as the statements before it made it.
\<close>

definition channel_means ::
  "'f npfloat \<Rightarrow> rat \<Rightarrow> rat \<Rightarrow> rat \<Rightarrow> nat \<Rightarrow> 'f store \<Rightarrow> (error + nat) \<times> 'f store" where
  "channel_means np c0 c1 c2 img s =
     (case channel_sub np 0 c0 img s of
        Inl e \<Rightarrow> (Inl e, s)
      | Inr s1 \<Rightarrow>
          (case channel_sub np 1 c1 img s1 of
             Inl e \<Rightarrow> (Inl e, s1)
           | Inr s2 \<Rightarrow>
               (case channel_sub np 2 c2 img s2 of
                  Inl e \<Rightarrow> (Inl e, s2)
                | Inr s3 \<Rightarrow> (Inr img, s3))))"

text \<open>
  Line 145, \<^verbatim>\<open>img = (img - mean) / std\<close>: the right-hand side is a new array, and only
  the local name \<^verbatim>\<open>img\<close> is bound to it.
\<close>

definition standardized :: "'f npfloat \<Rightarrow> 'f ndarray \<Rightarrow> 'f ndarray" where
  "standardized np a =
     (let m = mean np (elems a); sd = std np (elems a)
      in NdArray (shape a) (map (\<lambda>x. fdiv np (fsub np x m) sd) (elems a)))"

definition allocate :: "'f ndarray \<Rightarrow> 'f store \<Rightarrow> nat \<times> 'f store" where
  "allocate a s = (fresh s, s\<lparr>heap := (heap s)(fresh s := a), fresh := Suc (fresh s)\<rparr>)"

text \<open>
  \<^verbatim>\<open>normalize_input\<close>, lines 130 to 173: the parameter \<open>img\<close> is a reference, and the
  result is the reference returned with the store after the call.
\<close>

definition normalize_input ::
  "'f npfloat \<Rightarrow> nat \<Rightarrow> string \<Rightarrow> 'f store \<Rightarrow> (error + nat) \<times> 'f store" where
  "normalize_input np img normalization s =
     (if normalization = ''base'' then (Inr img, s)
      else
        (let s1 = assign_inplace (\<lambda>i x. fmul np x (lit np 255)) img s in
         if normalization = ''raw'' then (Inr img, s1)
         else if normalization = ''Facenet'' then
           (case allocate (standardized np (heap s1 img)) s1 of
              (img', s2) \<Rightarrow> (Inr img', s2))
         else if normalization = ''Facenet2018'' then
           (Inr img,
            assign_inplace (\<lambda>i x. fsub np x (lit np 1)) img
              (assign_inplace (\<lambda>i x. fdiv np x (lit np (1275 / 10))) img s1))
         else if normalization = ''VGGFace'' then
           channel_means np (935940 / 10000) (1047624 / 10000) (1291863 / 10000) img s1
         else if normalization = ''VGGFace2'' then
           channel_means np (914953 / 10000) (1038827 / 10000) (1310912 / 10000) img s1
         else if normalization = ''ArcFace'' then
           (Inr img,
            assign_inplace (\<lambda>i x. fdiv np x (lit np 128)) img
              (assign_inplace (\<lambda>i x. fsub np x (lit np (1275 / 10))) img s1))
         else (Inr img, s1)))"
section \<open>The specification's reading and sample inputs\<close>

text \<open>
  The specification's words for the data URI: everything after the first comma is the
  base64 payload, which is decoded to bytes and then to an image. These two definitions
  follow the specification, to be compared with \<open>load_image\<close>.
\<close>

definition after_first_comma :: "string \<Rightarrow> string" where
  "after_first_comma s = tl (dropWhile (\<lambda>c. c \<noteq> CHR '','') s)"

definition spec_load_data_uri :: "'a env \<Rightarrow> string \<Rightarrow> error + 'a ndarray option" where
  "spec_load_data_uri env s =
     (case b64decode env (after_first_comma s) of
        Inl e \<Rightarrow> Inl e
      | Inr nparr \<Rightarrow> imdecode env nparr)"

text \<open>
  Sample inputs. \<open>sample_env\<close> has no file; its base64 decoder knows two payloads, with
  the bytes base64 gives them, its image decoder knows one byte string, and its numpy
  is a release from 1.25 on.
  \<open>fixed_detector fs\<close> is a detector module that counts the models it builds and finds
  the faces \<open>fs\<close> in every image.
\<close>

definition img_2x2 :: "byte ndarray" where
  "img_2x2 = NdArray [2, 2, 3] [10, 20, 30, 40, 50, 60, 70, 80, 90, 100, 110, 120]"

definition sample_env :: "byte env" where
  "sample_env =
     \<lparr>isfile = (\<lambda>path. False),
      imread = (\<lambda>path. Inr None),
      b64decode = (\<lambda>p. if p = ''AAAA'' then Inr [0, 0, 0]
                         else if p = ''AAAA,BBBB'' then Inr [0, 0, 0, 4, 16, 65]
                         else Inl (Raised ''binascii.Error'')),
      imdecode = (\<lambda>bs. if bs = [0, 0, 0] then Inr (Some img_2x2) else Inr None),
      array_eq_str = numpy_elementwise_eq\<rparr>"

definition fixed_detector :: "'a face list \<Rightarrow> ('a, unit, nat) FaceDetector" where
  "fixed_detector fs =
     \<lparr>build_model = (\<lambda>name c. (Inr (), Suc c)),
      fd_detect_faces = (\<lambda>h name img align c. (Inr fs, c))\<rparr>"

definition idle :: "nat fd_state" where
  "idle = \<lparr>detectors = 0, calls = []\<rparr>"

definition empty_img :: "byte ndarray" where
  "empty_img = NdArray [0, 5, 3] []"

definition img_12x2 :: "byte ndarray" where
  "img_12x2 = NdArray [12, 2, 3] (replicate 72 200)"

text \<open>
  \<open>plain_lib\<close> is an image library that paints every pixel it computes with the value
  128 and converts a byte to the rational of the same value.
\<close>

definition plain_lib :: "(byte, rat) imglib" where
  "plain_lib =
     \<lparr>gray_px = (\<lambda>img. replicate (shape img ! 0 * shape img ! 1) 128),
      resize_px = (\<lambda>img w h. replicate (w * h * prod_list (drop 2 (shape img))) 128),
      to_float = (\<lambda>b. of_nat (unat b)),
      div255 = (\<lambda>x. x / 255)\<rparr>"

definition img_2x4 :: "byte ndarray" where
  "img_2x4 = NdArray [2, 4, 3] (replicate 24 200)"

definition img_1x1000 :: "byte ndarray" where
  "img_1x1000 = NdArray [1, 1000, 3] (replicate 3000 200)"

definition gray_2x4 :: "byte ndarray" where
  "gray_2x4 = NdArray [2, 4] (replicate 8 200)"

text \<open>
  Stores for the pixel normalizer, every reference denoting the same tensor: two pixels
  of three channels, one black pixel, one white pixel, and two pixels of one channel.
\<close>

definition sample_store :: "real store" where
  "sample_store = \<lparr>heap = (\<lambda>r. NdArray [1, 1, 2, 3] [0, 1 / 2, 1, 1, 0, 1 / 2]), fresh = 1\<rparr>"




section \<open>Properties of the image loader and of the detector adapter\<close>

text \<open>On an array with a height and a width, reading the two axes raises nothing.\<close>

lemma whole_image_region_eq:
  "2 \<le> length (shape img) \<Longrightarrow>
   whole_image_region img = Inr [0, 0, int (shape img ! 0), int (shape img ! 1)]"
  by (auto simp add: whole_image_region_def axis_def)

lemma zero_extent_eq:
  "2 \<le> length (shape img) \<Longrightarrow>
   zero_extent img = Inr (shape img ! 0 = 0 \<or> shape img ! 1 = 0)"
  by (auto simp add: zero_extent_def axis_def)

text \<open>
  The first piece of \<open>split_comma\<close> is the text before the first comma; the other pieces
  are those of the text after it.
\<close>

lemma split_comma_unfold:
  "split_comma s =
     takeWhile (\<lambda>c. c \<noteq> CHR '','') s #
       (if CHR '','' \<in> set s then split_comma (tl (dropWhile (\<lambda>c. c \<noteq> CHR '','') s)) else [])"
  by (induction s) (auto split: list.splits)

lemma encoded_data_eq:
  "encoded_data s =
     (if CHR '','' \<in> set s
      then Inr (takeWhile (\<lambda>c. c \<noteq> CHR '','') (tl (dropWhile (\<lambda>c. c \<noteq> CHR '','') s)))
      else Inl IndexError)"
proof (cases "CHR '','' \<in> set s")
  case True
  let ?rest = "tl (dropWhile (\<lambda>c. c \<noteq> CHR '','') s)"
  have "split_comma s = takeWhile (\<lambda>c. c \<noteq> CHR '','') s # split_comma ?rest"
    using True split_comma_unfold [of s] by simp
  moreover obtain ps where "split_comma ?rest = takeWhile (\<lambda>c. c \<noteq> CHR '','') ?rest # ps"
    using split_comma_unfold [of ?rest] by simp
  ultimately show ?thesis using True by (simp add: encoded_data_def)
next
  case False
  then have "split_comma s = [takeWhile (\<lambda>c. c \<noteq> CHR '','') s]"
    using split_comma_unfold [of s] by simp
  with False show ?thesis by (simp add: encoded_data_def)
qed

text \<open>
  C8, as amended. For a string of more than eleven characters whose first eleven are
  \<^verbatim>\<open>data:image/\<close>, \<open>load_image\<close> hands to the base64 decoder the text between the first
  comma and the second one (or the end of the string, when there is no second comma),
  and the decoded bytes to the image decoder; a string without a comma raises
  IndexError.
\<close>

theorem load_image_data_uri:
  assumes "11 < length s" and "take 11 s = ''data:image/''"
  shows "load_image env (Str s) =
           (if CHR '','' \<in> set s then
              (case b64decode env
                      (takeWhile (\<lambda>c. c \<noteq> CHR '','') (tl (dropWhile (\<lambda>c. c \<noteq> CHR '','') s))) of
                 Inl e \<Rightarrow> Inl e
               | Inr nparr \<Rightarrow> imdecode env nparr)
            else Inl IndexError)"
  using assms by (simp add: load_image_def loadBase64Img_def encoded_data_eq)

theorem load_image_data_uri_witness:
  "11 < length ''data:image/png;base64,AAAA'' \<and>
   take 11 ''data:image/png;base64,AAAA'' = ''data:image/'' \<and>
   load_image sample_env (Str ''data:image/png;base64,AAAA'') = Inr (Some img_2x2)"
  using load_image_data_uri [of "''data:image/png;base64,AAAA''" sample_env]
  by (simp add: sample_env_def)

text \<open>
  The claim C8 as stated fails at three strings that begin with the prefix. With two
  commas the loader decodes \<^verbatim>\<open>AAAA\<close> and returns the image, where everything after the
  first comma, \<^verbatim>\<open>AAAA,BBBB\<close>, is six bytes that are no image. Without a comma the
  loader raises IndexError. The prefix alone, eleven characters long, is read as a path.
\<close>

theorem load_image_data_uri_counterexample:
  "take 11 ''data:image/png;base64,AAAA,BBBB'' = ''data:image/'' \<and>
   load_image sample_env (Str ''data:image/png;base64,AAAA,BBBB'') = Inr (Some img_2x2) \<and>
   spec_load_data_uri sample_env ''data:image/png;base64,AAAA,BBBB'' = Inr None \<and>
   take 11 ''data:image/png'' = ''data:image/'' \<and>
   load_image sample_env (Str ''data:image/png'') = Inl IndexError \<and>
   take 11 ''data:image/'' = ''data:image/'' \<and>
   load_image sample_env (Str ''data:image/'') =
     Inl (ValueError [''Confirm that '', ''data:image/'', '' exists''])"
  by (simp add: load_image_def loadBase64Img_def encoded_data_def spec_load_data_uri_def
      after_first_comma_def sample_env_def)

text \<open>
  An array comes back as it is when the test of line 76 is not reached, the array
  having at most eleven rows, or when numpy answers it with \<^verbatim>\<open>False\<close>, as the releases
  before 1.25 do for every array.
\<close>

lemma load_image_array:
  assumes "shape a \<noteq> []"
      and "hd (shape a) \<le> 11 \<or> array_eq_str env a = Inr False"
  shows "load_image env (Arr a) = Inr (Some a)"
  using assms by (cases "shape a") (auto simp add: load_image_def)

lemma load_image_array_scalar_eq:
  assumes "shape a \<noteq> []" and "array_eq_str env = numpy_scalar_eq"
  shows "load_image env (Arr a) = Inr (Some a)"
  using assms by (cases "shape a") (auto simp add: load_image_def numpy_scalar_eq_def)

text \<open>
  C4. The claim asks that every array be returned unchanged, without an error. On an
  image of twelve rows, two columns and three channels, with a numpy from 1.25 on, the
  test of line 76 compares the slice of 66 elements with the prefix and the \<^verbatim>\<open>if\<close>
  raises ValueError: the array is not returned.
\<close>

theorem load_image_array_raises:
  "load_image sample_env (Arr img_12x2) =
     Inl (ValueError [''The truth value of an array with more than one element is ambiguous. Use a.any() or a.all()''])"
  by (simp add: load_image_def sample_env_def img_12x2_def numpy_elementwise_eq_def
      ambiguous_msg_def)



text \<open>
  What the zero-faces handling does on the code, for every detector that finds no face
  or raises: without enforcement the call raises the exception that advises to switch
  enforcement off, and with enforcement an image with extent comes back as the face.
\<close>

lemma detect_faces_no_face:
  assumes load: "load_image env img0 = Inr (Some img)"
      and img2: "2 \<le> length (shape img)"
      and ns: "detector_backend \<noteq> ''skip''"
      and b: "build_model FD detector_backend (detectors s) = (Inr h, c1)"
      and d: "fd_detect_faces FD h detector_backend img align c1 = (r, c2)"
      and none: "(case r of Inl _ \<Rightarrow> [] | Inr fs \<Rightarrow> fs) = []"
  shows "fst (detect_faces FD env img0 False detector_backend align s) = Inl NoFaceDetectedError"
    and "0 < shape img ! 0 \<Longrightarrow> 0 < shape img ! 1 \<Longrightarrow>
         fst (detect_faces FD env img0 True detector_backend align s) =
           Inr [(img, [0, 0, int (shape img ! 0), int (shape img ! 1)])]"
  using assms
  by (simp_all add: detect_faces_def whole_image_region_eq zero_faces_def zero_extent_eq Let_def)

text \<open>
  C1. The claim asks for \<open>NoFaceDetectedError\<close> when no face is found and
  \<open>enforce_detection\<close> is true. On a 2 by 2 image in which the detector finds nothing,
  the code returns the whole image as the face instead.
\<close>

theorem detect_faces_enforced_no_face:
  "detect_faces (fixed_detector []) sample_env (Arr img_2x2) True ''opencv'' True idle =
     (Inr [(img_2x2, [0, 0, 2, 2])],
      \<lparr>detectors = 1, calls = [Build ''opencv'', Detect ''opencv'' True]\<rparr>)"
  by (simp add: detect_faces_def load_image_def img_2x2_def fixed_detector_def idle_def
      zero_faces_def whole_image_region_def axis_def zero_extent_def)

text \<open>
  C2. The claim asks for the whole-image pair when no face is found and
  \<open>enforce_detection\<close> is false. On the same input the code raises the exception whose
  message advises to set \<open>enforce_detection\<close> to False.
\<close>

theorem detect_faces_unenforced_no_face:
  "detect_faces (fixed_detector []) sample_env (Arr img_2x2) False ''opencv'' True idle =
     (Inl NoFaceDetectedError,
      \<lparr>detectors = 1, calls = [Build ''opencv'', Detect ''opencv'' True]\<rparr>)"
  by (simp add: detect_faces_def load_image_def img_2x2_def fixed_detector_def idle_def
      zero_faces_def whole_image_region_def axis_def)

text \<open>
  The loop over the faces stops at the first crop without extent, when enforcement
  is on.
\<close>

lemma check_faces_finds:
  assumes "list_all (\<lambda>f. 2 \<le> length (shape (fst f))) fs"
      and "list_ex (\<lambda>f. shape (fst f) ! 0 = 0 \<or> shape (fst f) ! 1 = 0) fs"
  shows "\<exists>crop region. (crop, region) \<in> set fs \<and>
           (shape crop ! 0 = 0 \<or> shape crop ! 1 = 0) \<and>
           check_faces True fs = Some (DegenerateFaceError (shape crop))"
  using assms
proof (induction fs)
  case Nil
  then show ?case by simp
next
  case (Cons f fs)
  obtain c r where f: "f = (c, r)" by (cases f)
  from Cons.prems(1) f have c2: "2 \<le> length (shape c)" by simp
  show ?case
  proof (cases "shape c ! 0 = 0 \<or> shape c ! 1 = 0")
    case True
    then have "check_faces True (f # fs) = Some (DegenerateFaceError (shape c))"
      using c2 f by (simp add: zero_extent_eq)
    with True f show ?thesis by auto
  next
    case False
    with Cons.prems f have "list_all (\<lambda>f. 2 \<le> length (shape (fst f))) fs"
      and "list_ex (\<lambda>f. shape (fst f) ! 0 = 0 \<or> shape (fst f) ! 1 = 0) fs"
      by auto
    from Cons.IH [OF this] obtain crop region where
      h: "(crop, region) \<in> set fs" "shape crop ! 0 = 0 \<or> shape crop ! 1 = 0"
         "check_faces True fs = Some (DegenerateFaceError (shape crop))"
      by blast
    from False c2 f have "check_faces True (f # fs) = check_faces True fs"
      by (simp add: zero_extent_eq)
    with h show ?thesis by auto
  qed
qed

text \<open>
  C7. Let \<open>faces\<close> be the list after the zero-faces handling, enforcement being on: the
  detector's list, or the whole-image pair when the detector found nothing or raised.
  If some crop of \<open>faces\<close> has zero height or zero width, \<open>detect_faces\<close> fails with
  \<open>DegenerateFaceError\<close> for such a crop of the list, and the message prints that crop's
  shape. The whole-image pair of an image without extent is one case of it.
\<close>

theorem detect_faces_degenerate:
  assumes load: "load_image env img0 = Inr (Some img)"
      and img2: "2 \<le> length (shape img)"
      and ns: "detector_backend \<noteq> ''skip''"
      and b: "build_model FD detector_backend (detectors s) = (Inr h, c1)"
      and d: "fd_detect_faces FD h detector_backend img align c1 = (r, c2)"
      and z: "zero_faces img True (case r of Inl _ \<Rightarrow> [] | Inr fs \<Rightarrow> fs) = Inr faces"
      and axes: "list_all (\<lambda>f. 2 \<le> length (shape (fst f))) faces"
      and deg: "list_ex (\<lambda>f. shape (fst f) ! 0 = 0 \<or> shape (fst f) ! 1 = 0) faces"
  shows "\<exists>crop region. (crop, region) \<in> set faces \<and>
           (shape crop ! 0 = 0 \<or> shape crop ! 1 = 0) \<and>
           fst (detect_faces FD env img0 True detector_backend align s) =
             Inl (DegenerateFaceError (shape crop)) \<and>
           DegenerateFaceError (shape crop) =
             ValueError [''Detected face shape is '' @ repr_tuple (shape crop) @
                   '', Consider to set enforce_detection argument to False.'']"
proof -
  from check_faces_finds [OF axes deg] obtain crop region where
    h: "(crop, region) \<in> set faces"
       "shape crop ! 0 = 0 \<or> shape crop ! 1 = 0"
       "check_faces True faces = Some (DegenerateFaceError (shape crop))"
    by blast
  have "fst (detect_faces FD env img0 True detector_backend align s) =
          Inl (DegenerateFaceError (shape crop))"
    using load img2 ns b d z h(3)
    by (simp add: detect_faces_def whole_image_region_eq Let_def)
  with h(1,2) show ?thesis
    by (auto simp add: DegenerateFaceError_def degenerate_msg_def)
qed


lemma repr_053: "repr_tuple [0, 5, 3] = ''(0, 5, 3)''"
  by code_simp

lemma repr_303: "repr_tuple [3, 0, 3] = ''(3, 0, 3)''"
  by code_simp

theorem detect_faces_degenerate_witness:
  "fst (detect_faces (fixed_detector []) sample_env (Arr empty_img) True ''opencv'' True idle) =
     Inl (ValueError [''Detected face shape is (0, 5, 3), Consider to set enforce_detection argument to False.'']) \<and>
   fst (detect_faces
          (fixed_detector [(NdArray [1, 1, 3] [1, 2, 3], [0, 1, 1, 1]), (NdArray [3, 0, 3] [], [1, 0, 0, 3])])
          sample_env (Arr img_2x2) True ''opencv'' True idle) =
     Inl (ValueError [''Detected face shape is (3, 0, 3), Consider to set enforce_detection argument to False.''])"
proof
  let ?FD = "fixed_detector ([] :: byte face list)"
  have load: "load_image sample_env (Arr empty_img) = Inr (Some empty_img)"
    by (simp add: load_image_def empty_img_def)
  have img2: "2 \<le> length (shape empty_img)"
    by (simp add: empty_img_def)
  have ns: "''opencv'' \<noteq> ''skip''" by simp
  have b: "build_model ?FD ''opencv'' (detectors idle) = (Inr (), 1)"
    by (simp add: fixed_detector_def idle_def)
  have d: "fd_detect_faces ?FD () ''opencv'' empty_img True 1 = (Inr [], 1)"
    by (simp add: fixed_detector_def)
  have z: "zero_faces empty_img True (case (Inr [] :: error + byte face list) of Inl _ \<Rightarrow> [] | Inr fs \<Rightarrow> fs) =
             Inr [(empty_img, [0, 0, 0, 5])]"
    by (simp add: zero_faces_def whole_image_region_def axis_def empty_img_def)
  have axes: "list_all (\<lambda>f. 2 \<le> length (shape (fst f))) [(empty_img, [0, 0, 0, 5 :: int])]"
    by (simp add: empty_img_def)
  have deg: "list_ex (\<lambda>f. shape (fst f) ! 0 = 0 \<or> shape (fst f) ! 1 = 0) [(empty_img, [0, 0, 0, 5 :: int])]"
    by (simp add: empty_img_def)
  from detect_faces_degenerate [OF load img2 ns b d z axes deg]
  show "fst (detect_faces ?FD sample_env (Arr empty_img) True ''opencv'' True idle) =
     Inl (ValueError [''Detected face shape is (0, 5, 3), Consider to set enforce_detection argument to False.''])"
    by (simp add: empty_img_def repr_053)
next
  let ?fs = "[(NdArray [1, 1, 3] [1, 2, 3], [0, 1, 1, 1]), (NdArray [3, 0, 3] [], [1, 0, 0, 3])] :: byte face list"
  let ?FD = "fixed_detector ?fs"
  have load: "load_image sample_env (Arr img_2x2) = Inr (Some img_2x2)"
    by (simp add: load_image_def img_2x2_def)
  have img2: "2 \<le> length (shape img_2x2)"
    by (simp add: img_2x2_def)
  have ns: "''opencv'' \<noteq> ''skip''" by simp
  have b: "build_model ?FD ''opencv'' (detectors idle) = (Inr (), 1)"
    by (simp add: fixed_detector_def idle_def)
  have d: "fd_detect_faces ?FD () ''opencv'' img_2x2 True 1 = (Inr ?fs, 1)"
    by (simp add: fixed_detector_def)
  have z: "zero_faces img_2x2 True (case (Inr ?fs :: error + byte face list) of Inl _ \<Rightarrow> [] | Inr fs \<Rightarrow> fs) =
             Inr ?fs"
    by (simp add: zero_faces_def)
  have axes: "list_all (\<lambda>f. 2 \<le> length (shape (fst f))) ?fs"
    by simp
  have deg: "list_ex (\<lambda>f. shape (fst f) ! 0 = 0 \<or> shape (fst f) ! 1 = 0) ?fs"
    by simp
  from detect_faces_degenerate [OF load img2 ns b d z axes deg]
  show "fst (detect_faces ?FD sample_env (Arr img_2x2) True ''opencv'' True idle) =
     Inl (ValueError [''Detected face shape is (3, 0, 3), Consider to set enforce_detection argument to False.''])"
    by (auto simp add: repr_303)
qed

section \<open>Properties of the geometric normalizer\<close>

text \<open>The image that reaches the padding, for a colour image of three channels.\<close>

lemma resized_face_color:
  assumes "shape img = [h, w, 3]" and "0 < h" and "0 < w"
  shows "resized_face fl lib img tsize False =
           (let d = scaled fl h w tsize in
            if 0 < fst d \<and> 0 < snd d
            then Inr (NdArray [nat (snd d), nat (fst d), 3] (resize_px lib img (nat (fst d)) (nat (snd d))))
            else Inl CvError)"
  using assms
  by (simp add: resized_face_def resize_to_fit_def axis_def cv2_resize_def Let_def)

lemma resized_face_gray:
  assumes "shape img = [h, w, 3]" and "0 < h" and "0 < w"
  shows "resized_face fl lib img tsize True =
           (let d = scaled fl h w tsize; g = NdArray [h, w] (gray_px lib img) in
            if 0 < fst d \<and> 0 < snd d
            then Inr (NdArray [nat (snd d), nat (fst d)] (resize_px lib g (nat (fst d)) (nat (snd d))))
            else Inl CvError)"
  using assms
  by (simp add: resized_face_def resize_to_fit_def axis_def cv2_resize_def cvtColor_gray_def Let_def)

text \<open>
  Lists cut into rows: consecutive pieces of a list put together again, and the element
  at a row and a column of a list of rows of one length.
\<close>

lemma concat_takes:
  "concat (map (\<lambda>i. take m (drop (i * m) xs)) [0..<n]) = take (n * m) xs"
proof (induction n)
  case 0
  show ?case by simp
next
  case (Suc n)
  have e: "Suc n * m = n * m + m" by simp
  have "take (Suc n * m) xs = take (n * m) xs @ take m (drop (n * m) xs)"
    unfolding e by (rule take_add)
  with Suc show ?case by simp
qed

lemma pad_nd_axis: "pad_nd [n] [(a, b)] xs = replicate a 0 @ take n xs @ replicate b 0"
  using concat_takes [of 1 xs n] by (simp add: Let_def comp_def)

lemma nth_concat_rows:
  assumes "\<forall>r \<in> set rows. length r = T" and "i < length rows" and "j < T"
  shows "concat rows ! (i * T + j) = rows ! i ! j"
  using assms
proof (induction rows arbitrary: i)
  case Nil
  then show ?case by simp
next
  case (Cons r rs)
  show ?case
  proof (cases i)
    case 0
    with Cons.prems show ?thesis by (simp add: nth_append)
  next
    case (Suc i')
    with Cons.prems have "concat rs ! (i' * T + j) = rs ! i' ! j"
      by (intro Cons.IH) auto
    with Suc Cons.prems show ?thesis by (simp add: nth_append)
  qed
qed

lemma length_concat_rows:
  assumes "\<forall>r \<in> set rows. length r = T"
  shows "length (concat rows) = length rows * T"
  using assms by (induction rows) auto


text \<open>
  What \<open>pad_nd\<close> computes on one, two and three axes, the last of the three not
  padded: zero rows above and below, and every row of the content between zeros.
\<close>

lemma concat_zero_rows: "concat (replicate a (replicate T (0::'a::zero))) = replicate (a * T) 0"
  by (induction a) (simp_all add: replicate_add)

lemma pad_nd_gray:
  "pad_nd [m, n] [(a, b), (c, d)] xs =
     replicate (a * (c + n + d)) 0 @
     concat (map (\<lambda>i. replicate c 0 @ take n (drop (i * n) xs) @ replicate d 0) [0..<m]) @
     replicate (b * (c + n + d)) 0"
  apply (subst pad_nd.simps(1))
  apply (simp add: Let_def pad_nd_axis comp_def del: pad_nd.simps)
  done

lemma pad_nd_cells:
  "pad_nd [n, k] [(c, d), (0, 0)] row = replicate (c * k) 0 @ take (n * k) row @ replicate (d * k) 0"
  apply (subst pad_nd.simps(1))
  apply (simp add: Let_def pad_nd_axis comp_def concat_takes del: pad_nd.simps)
  done

lemma pad_nd_color:
  "pad_nd [m, n, k] [(a, b), (c, d), (0, 0)] xs =
     replicate (a * ((c + n + d) * k)) 0 @
     concat (map (\<lambda>i. replicate (c * k) 0 @ take (n * k) (drop (i * (n * k)) xs) @
                        replicate (d * k) 0) [0..<m]) @
     replicate (b * ((c + n + d) * k)) 0"
  apply (subst pad_nd.simps(1))
  apply (simp add: Let_def pad_nd_cells comp_def del: pad_nd.simps)
  done

text \<open>
  The element of such a padded list at a row and a position in the row: an element
  of the content inside the frame, zero in the frame.
\<close>

lemma full_row_le:
  assumes "length xs = m * W" and "r < m"
  shows "r * W + W \<le> length xs"
proof -
  from assms(2) obtain q where "m = Suc (r + q)" by (metis less_iff_Suc_add)
  then have "m * W = r * W + (W + q * W)" by (simp add: algebra_simps)
  with assms(1) show ?thesis by simp
qed

lemma full_row:
  assumes "length xs = m * W" and "r < m"
  shows "length (take W (drop (r * W) xs)) = W"
  using full_row_le [OF assms] by simp

lemma framed_nth:
  fixes xs :: "'a::zero list"
  assumes len: "length xs = m * W" and i: "i < a + m + b" and j: "j < L + W + R"
  shows "(replicate (a * (L + W + R)) 0 @
          concat (map (\<lambda>r. replicate L 0 @ take W (drop (r * W) xs) @ replicate R 0) [0..<m]) @
          replicate (b * (L + W + R)) 0) ! (i * (L + W + R) + j) =
         (if a \<le> i \<and> i < a + m \<and> L \<le> j \<and> j < L + W
          then xs ! ((i - a) * W + (j - L)) else 0)"
proof -
  let ?T = "L + W + R"
  let ?row = "\<lambda>r. replicate L 0 @ take W (drop (r * W) xs) @ replicate R 0"
  let ?rows = "replicate a (replicate ?T 0) @ map ?row [0..<m] @ replicate b (replicate ?T 0)"
  have c: "concat ?rows =
             replicate (a * ?T) 0 @ concat (map ?row [0..<m]) @ replicate (b * ?T) 0"
    by (simp add: concat_zero_rows)
  have all: "\<forall>r \<in> set ?rows. length r = ?T"
    using full_row [OF len] by auto
  have n: "i < length ?rows" using i by simp
  have "concat ?rows ! (i * ?T + j) = ?rows ! i ! j"
    using nth_concat_rows [OF all n j] .
  also have "\<dots> = (if a \<le> i \<and> i < a + m \<and> L \<le> j \<and> j < L + W
                    then xs ! ((i - a) * W + (j - L)) else 0)"
  proof (cases "i < a")
    case True
    then show ?thesis using j by (simp add: nth_append)
  next
    case False
    show ?thesis
    proof (cases "i < a + m")
      case True
      with False have r: "i - a < m" by simp
      have "?rows ! i = ?row (i - a)"
        using False r by (simp add: nth_append)
      moreover have "?row (i - a) ! j =
          (if L \<le> j \<and> j < L + W then xs ! ((i - a) * W + (j - L)) else 0)"
      proof -
        have fr: "length (take W (drop ((i - a) * W) xs)) = W"
          using full_row [OF len r] .
        have le: "(i - a) * W + W \<le> length xs"
          using full_row_le [OF len r] .
        show ?thesis
        proof (cases "j < L")
          case True
          then show ?thesis by (simp add: nth_append)
        next
          case False
          show ?thesis
          proof (cases "j < L + W")
            case True
            with False have jl: "j - L < W" by simp
            then have t: "take W (drop ((i - a) * W) xs) ! (j - L) = xs ! ((i - a) * W + (j - L))"
              using le by simp
            have "?row (i - a) ! j = (take W (drop ((i - a) * W) xs) @ replicate R 0) ! (j - L)"
              using False by (simp add: nth_append)
            also have "\<dots> = take W (drop ((i - a) * W) xs) ! (j - L)"
              using jl fr by (simp add: nth_append del: length_take)
            finally show ?thesis using t False True by simp
          next
            case False
            with \<open>\<not> j < L\<close> have jl: "\<not> j - L < W" by simp
            have "?row (i - a) ! j = (take W (drop ((i - a) * W) xs) @ replicate R 0) ! (j - L)"
              using \<open>\<not> j < L\<close> by (simp add: nth_append)
            also have "\<dots> = replicate R (0::'a) ! (j - L - W)"
              using jl fr by (simp add: nth_append del: length_take)
            also have "\<dots> = 0"
              using j False by simp
            finally show ?thesis using False by simp
          qed
        qed
      qed
      ultimately show ?thesis using False True by simp
    next
      case False
      with \<open>\<not> i < a\<close> have ge: "\<not> i - a < m" by simp
      from False i have lt: "i - a - m < b" by simp
      have "?rows ! i = (map ?row [0..<m] @ replicate b (replicate ?T 0)) ! (i - a)"
        using \<open>\<not> i < a\<close> by (simp add: nth_append)
      also have "\<dots> = replicate b (replicate ?T 0) ! (i - a - m)"
        using ge by (simp add: nth_append)
      also have "\<dots> = replicate ?T 0"
        using lt by simp
      finally show ?thesis using False j by simp
    qed
  qed
  finally show ?thesis unfolding c .
qed

text \<open>
  A position in a row of pixels of \<open>c\<close> channels each, and the two halves of a
  difference.
\<close>

lemma cell_lt: "k < c \<Longrightarrow> j < n \<Longrightarrow> j * c + k < n * (c::nat)"
proof -
  assume k: "k < c" and j: "j < n"
  from j have "Suc j * c \<le> n * c" by (intro mult_le_mono1) simp
  with k show ?thesis by simp
qed

lemma cell_le_iff: "k < c \<Longrightarrow> (l * c \<le> j * c + k) = (l \<le> (j::nat))"
proof
  assume k: "k < c" and le: "l * c \<le> j * c + k"
  show "l \<le> j"
  proof (rule ccontr)
    assume "\<not> l \<le> j"
    then have "j < l" by simp
    from cell_lt [OF k this] le show False by simp
  qed
next
  assume "l \<le> j"
  then have "l * c \<le> j * c" by (rule mult_le_mono1)
  also have "j * c \<le> j * c + k" by (rule le_add1)
  finally show "l * c \<le> j * c + k" .
qed

lemma cell_lt_iff: "k < c \<Longrightarrow> (j * c + k < n * c) = (j < (n::nat))"
proof
  assume k: "k < c" and lt: "j * c + k < n * c"
  show "j < n"
  proof (rule ccontr)
    assume "\<not> j < n"
    then have "n * c \<le> j * c" by (intro mult_le_mono1) simp
    with lt show False by simp
  qed
next
  assume "k < c" and "j < n"
  then show "j * c + k < n * c" by (rule cell_lt)
qed

lemma cell_diff: "l \<le> j \<Longrightarrow> j * c + k - l * c = (j - l) * c + (k::nat)"
proof -
  assume "l \<le> j"
  then have "l * c \<le> j * c" by (rule mult_le_mono1)
  then show ?thesis by (simp add: diff_mult_distrib)
qed

lemma framed_length:
  fixes xs :: "'a::zero list"
  assumes len: "length xs = m * W"
  shows "length (replicate (a * (L + W + R)) (0::'a) @
          concat (map (\<lambda>r. replicate L 0 @ take W (drop (r * W) xs) @ replicate R 0) [0..<m]) @
          replicate (b * (L + W + R)) 0) = (a + m + b) * (L + W + R)"
proof -
  let ?row = "\<lambda>r. replicate L (0::'a) @ take W (drop (r * W) xs) @ replicate R 0"
  have "\<forall>r \<in> set (map ?row [0..<m]). length r = L + W + R"
    using full_row [OF len] by auto
  from length_concat_rows [OF this] show ?thesis
    by (simp add: algebra_simps)
qed


lemma half_split:
  fixes d :: nat
  assumes "p = d div 2" and "q = d - p"
  shows "p + q = d" and "q = p \<or> q = Suc p"
proof -
  have e: "d = 2 * (d div 2) + d mod 2" by simp
  have m: "d mod 2 = 0 \<or> d mod 2 = 1" by auto
  from assms e have q: "q = d div 2 + d mod 2" by linarith
  from assms q e show "p + q = d" by linarith
  from assms q m show "q = p \<or> q = Suc p" by auto
qed

lemma half_split_int:
  fixes d :: nat
  assumes "p = d div 2" and "q = d - p"
  shows "int d div 2 = int p" and "int d - int d div 2 = int q" and "\<bar>int p - int q\<bar> \<le> 1"
proof -
  from half_split [OF assms] have s: "p + q = d" and n: "q = p \<or> q = Suc p" .
  show a: "int d div 2 = int p" using assms(1) by (simp add: zdiv_int)
  from s have "int d = int p + int q" by simp
  with a show "int d - int d div 2 = int q" by simp
  from n show "\<bar>int p - int q\<bar> \<le> 1" by auto
qed

text \<open>
  C6. Let \<open>img2\<close> be the image after the resize of \<open>reshape_face\<close>, of \<open>h2\<close> rows and
  \<open>w2\<close> columns that fit in the target, and let the space left on each axis be split
  into the half rounded down, before, and the remainder, after. Then the two sides
  differ by at most one on each axis, and the tensor that \<open>reshape_face\<close> returns holds,
  at row \<open>i\<close>, column \<open>j\<close> and channel \<open>k\<close>, the pixel of \<open>img2\<close> at row \<open>i - ptop\<close> and
  column \<open>j - pleft\<close> inside the frame, and the zero pixel in the frame (both converted
  to float and divided by 255, as every pixel is).
\<close>

theorem reshape_face_centered:
  assumes r: "resized_face fl lib img (t0, t1) grayscale = Inr img2"
      and shp: "shape img2 = (if grayscale then [h2, w2] else [h2, w2, c])"
      and ch: "grayscale \<longrightarrow> c = 1"
      and len: "length (elems img2) = h2 * w2 * c"
      and fit: "h2 \<le> t0" "w2 \<le> t1"
      and ptop: "ptop = (t0 - h2) div 2" and pbot: "pbot = t0 - h2 - ptop"
      and pleft: "pleft = (t1 - w2) div 2" and pright: "pright = t1 - w2 - pleft"
  shows "\<bar>int ptop - int pbot\<bar> \<le> 1 \<and> \<bar>int pleft - int pright\<bar> \<le> 1 \<and>
         ptop + h2 + pbot = t0 \<and> pleft + w2 + pright = t1 \<and>
         (\<exists>px. reshape_face fl lib img region (t0, t1) grayscale =
                  Inr (NdArray [1, t0, t1, c] px, region) \<and>
               length px = t0 * t1 * c \<and>
               (\<forall>i<t0. \<forall>j<t1. \<forall>k<c.
                  px ! ((i * t1 + j) * c + k) =
                    (if ptop \<le> i \<and> i < ptop + h2 \<and> pleft \<le> j \<and> j < pleft + w2
                     then div255 lib (to_float lib
                            (elems img2 ! (((i - ptop) * w2 + (j - pleft)) * c + k)))
                     else div255 lib (to_float lib 0))))"
proof -
  note v = half_split [OF ptop pbot] half_split_int [OF ptop pbot]
  note h = half_split [OF pleft pright] half_split_int [OF pleft pright]
  have sums: "ptop + h2 + pbot = t0" "pleft + w2 + pright = t1"
    using v(1) h(1) fit by simp_all
  have near: "\<bar>int ptop - int pbot\<bar> \<le> 1" "\<bar>int pleft - int pright\<bar> \<le> 1"
    using v(5) h(5) .
  let ?xs = "elems img2"
  let ?T = "pleft * c + w2 * c + pright * c"
  let ?F = "replicate (ptop * ?T) 0 @
            concat (map (\<lambda>r. replicate (pleft * c) 0 @ take (w2 * c) (drop (r * (w2 * c)) ?xs) @
                               replicate (pright * c) 0) [0..<h2]) @
            replicate (pbot * ?T) 0"
  have T: "?T = t1 * c"
    unfolding sums(2) [symmetric] by (simp add: add_mult_distrib)
  have len': "length ?xs = h2 * (w2 * c)"
    using len by (simp add: mult.assoc)
  have i0: "int t0 - int h2 = int (t0 - h2)" and i1: "int t1 - int w2 = int (t1 - w2)"
    using fit by simp_all
  have d0: "(int t0 - int h2) div 2 = int ptop" "int t0 - int h2 - (int t0 - int h2) div 2 = int pbot"
    unfolding i0 using v(3,4) .
  have d1: "(int t1 - int w2) div 2 = int pleft" "int t1 - int w2 - (int t1 - int w2) div 2 = int pright"
    unfolding i1 using h(3,4) .
  have e0: "int t0 - int h2 - int ptop = int pbot" using d0(2) unfolding d0(1) .
  have e1: "int t1 - int w2 - int pleft = int pright" using d1(2) unfolding d1(1) .
  have res: "reshape_face fl lib img region (t0, t1) grayscale =
               Inr (NdArray [1, t0, t1, c] (map (div255 lib) (map (to_float lib) ?F)), region)"
  proof (cases grayscale)
    case True
    with shp ch have s2: "shape img2 = [h2, w2]" and c1: "c = 1" by simp_all
    from r True have r': "resized_face fl lib img (t0, t1) True = Inr img2" by simp
    have pd: "padding img2 (t0, t1) True = Inr [(int ptop, int pbot), (int pleft, int pright)]"
      by (simp add: padding_def axis_def s2 Let_def d0 d1 e0 e1)
    have np: "np_pad img2 [(int ptop, int pbot), (int pleft, int pright)] =
                Inr (NdArray [t0, t1] ?F)"
      using sums by (simp add: np_pad_def s2 pad_nd_gray c1 add.assoc del: pad_nd.simps)
    have dc: "double_check lib (NdArray [t0, t1] ?F) (t0, t1) = Inr (NdArray [t0, t1] ?F)"
      by (simp add: double_check_def)
    have tt: "to_tensor lib (NdArray [t0, t1] ?F) =
                Inr (NdArray [1, t0, t1, c] (map (div255 lib) (map (to_float lib) ?F)))"
      using c1 by (simp add: to_tensor_def img_to_array_def)
    have "reshape_face fl lib img region (t0, t1) True =
               Inr (NdArray [1, t0, t1, c] (map (div255 lib) (map (to_float lib) ?F)), region)"
      by (simp only: reshape_face_def r' pd np dc tt sum.case)
    with True show ?thesis by simp
  next
    case False
    with shp have s3: "shape img2 = [h2, w2, c]" by simp
    from r False have r': "resized_face fl lib img (t0, t1) False = Inr img2" by simp
    have pd: "padding img2 (t0, t1) False =
                Inr [(int ptop, int pbot), (int pleft, int pright), (0, 0)]"
      by (simp add: padding_def axis_def s3 Let_def d0 d1 e0 e1)
    have data: "pad_nd [h2, w2, c] [(ptop, pbot), (pleft, pright), (0, 0)] ?xs = ?F"
      unfolding pad_nd_color by (simp only: add_mult_distrib)
    have np: "np_pad img2 [(int ptop, int pbot), (int pleft, int pright), (0, 0)] =
                Inr (NdArray [t0, t1, c] ?F)"
      using sums by (simp add: np_pad_def s3 data add.assoc del: pad_nd.simps)
    have dc: "double_check lib (NdArray [t0, t1, c] ?F) (t0, t1) = Inr (NdArray [t0, t1, c] ?F)"
      by (simp add: double_check_def)
    have tt: "to_tensor lib (NdArray [t0, t1, c] ?F) =
                Inr (NdArray [1, t0, t1, c] (map (div255 lib) (map (to_float lib) ?F)))"
      by (simp add: to_tensor_def img_to_array_def)
    have "reshape_face fl lib img region (t0, t1) False =
               Inr (NdArray [1, t0, t1, c] (map (div255 lib) (map (to_float lib) ?F)), region)"
      by (simp only: reshape_face_def r' pd np dc tt sum.case)
    with False show ?thesis by simp
  qed
  have lenF: "length ?F = t0 * t1 * c"
    using framed_length [OF len', of ptop "pleft * c" "pright * c" pbot] sums(1) T
    by (simp add: mult.assoc)
  have nthF: "\<forall>i<t0. \<forall>j<t1. \<forall>k<c.
      ?F ! ((i * t1 + j) * c + k) =
        (if ptop \<le> i \<and> i < ptop + h2 \<and> pleft \<le> j \<and> j < pleft + w2
         then ?xs ! (((i - ptop) * w2 + (j - pleft)) * c + k) else 0)"
  proof (intro allI impI)
    fix i j k
    assume i: "i < t0" and j: "j < t1" and k: "k < c"
    have i': "i < ptop + h2 + pbot" using i sums(1) by simp
    have j': "j * c + k < ?T" using cell_lt [OF k j] T by simp
    have idx: "(i * t1 + j) * c + k = i * ?T + (j * c + k)"
      using T by (simp add: algebra_simps)
    have c1: "(pleft * c \<le> j * c + k) = (pleft \<le> j)" using cell_le_iff [OF k] .
    have c2: "(j * c + k < pleft * c + w2 * c) = (j < pleft + w2)"
      using cell_lt_iff [OF k, of j "pleft + w2"] by (simp add: algebra_simps)
    have c3: "pleft \<le> j \<Longrightarrow> (i - ptop) * (w2 * c) + (j * c + k - pleft * c) =
                ((i - ptop) * w2 + (j - pleft)) * c + k"
      by (simp only: cell_diff add_mult_distrib mult.assoc add.assoc)
    show "?F ! ((i * t1 + j) * c + k) =
        (if ptop \<le> i \<and> i < ptop + h2 \<and> pleft \<le> j \<and> j < pleft + w2
         then ?xs ! (((i - ptop) * w2 + (j - pleft)) * c + k) else 0)"
      unfolding idx framed_nth [OF len' i' j'] c1 c2 using c3 by simp
  qed
  define F where "F = ?F"
  have res': "reshape_face fl lib img region (t0, t1) grayscale =
                Inr (NdArray [1, t0, t1, c] (map (div255 lib) (map (to_float lib) F)), region)"
    using res unfolding F_def .
  have lenF': "length F = t0 * t1 * c"
    using lenF unfolding F_def .
  have nthF': "\<forall>i<t0. \<forall>j<t1. \<forall>k<c.
      F ! ((i * t1 + j) * c + k) =
        (if ptop \<le> i \<and> i < ptop + h2 \<and> pleft \<le> j \<and> j < pleft + w2
         then ?xs ! (((i - ptop) * w2 + (j - pleft)) * c + k) else 0)"
    using nthF unfolding F_def .
  have nthpx: "\<forall>i<t0. \<forall>j<t1. \<forall>k<c.
      map (div255 lib) (map (to_float lib) F) ! ((i * t1 + j) * c + k) =
        (if ptop \<le> i \<and> i < ptop + h2 \<and> pleft \<le> j \<and> j < pleft + w2
         then div255 lib (to_float lib (?xs ! (((i - ptop) * w2 + (j - pleft)) * c + k)))
         else div255 lib (to_float lib 0))"
  proof (intro allI impI)
    fix i j k
    assume i: "i < t0" and j: "j < t1" and k: "k < c"
    have "(i * t1 + j) * c + k < (t0 * t1) * c"
    proof -
      have "i * t1 + j < t0 * t1" using cell_lt [OF j i] .
      from cell_lt [OF k this] show ?thesis .
    qed
    then have b: "(i * t1 + j) * c + k < length F" using lenF' by simp
    from nthF' i j k have v: "F ! ((i * t1 + j) * c + k) =
        (if ptop \<le> i \<and> i < ptop + h2 \<and> pleft \<le> j \<and> j < pleft + w2
         then ?xs ! (((i - ptop) * w2 + (j - pleft)) * c + k) else 0)"
      by blast
    have "map (div255 lib) (map (to_float lib) F) ! ((i * t1 + j) * c + k) =
            div255 lib (to_float lib (F ! ((i * t1 + j) * c + k)))"
      using b by simp
    also have "\<dots> =
        (if ptop \<le> i \<and> i < ptop + h2 \<and> pleft \<le> j \<and> j < pleft + w2
         then div255 lib (to_float lib (?xs ! (((i - ptop) * w2 + (j - pleft)) * c + k)))
         else div255 lib (to_float lib 0))"
      unfolding v by (rule if_distrib [of "\<lambda>x. div255 lib (to_float lib x)"])
    finally show "map (div255 lib) (map (to_float lib) F) ! ((i * t1 + j) * c + k) =
        (if ptop \<le> i \<and> i < ptop + h2 \<and> pleft \<le> j \<and> j < pleft + w2
         then div255 lib (to_float lib (?xs ! (((i - ptop) * w2 + (j - pleft)) * c + k)))
         else div255 lib (to_float lib 0))" .
  qed
  have lenpx: "length (map (div255 lib) (map (to_float lib) F)) = t0 * t1 * c"
    using lenF' by simp
  from res' lenpx nthpx
  have "\<exists>px. reshape_face fl lib img region (t0, t1) grayscale =
                  Inr (NdArray [1, t0, t1, c] px, region) \<and>
               length px = t0 * t1 * c \<and>
               (\<forall>i<t0. \<forall>j<t1. \<forall>k<c.
                  px ! ((i * t1 + j) * c + k) =
                    (if ptop \<le> i \<and> i < ptop + h2 \<and> pleft \<le> j \<and> j < pleft + w2
                     then div255 lib (to_float lib
                            (elems img2 ! (((i - ptop) * w2 + (j - pleft)) * c + k)))
                     else div255 lib (to_float lib 0)))"
    by blast
  with near sums show ?thesis by blast
qed

theorem reshape_face_centered_witness:
  "(\<exists>px. reshape_face exact_float plain_lib img_2x4 [0, 0, 2, 4] (5, 4) False =
           Inr (NdArray [1, 5, 4, 3] px, [0, 0, 2, 4]) \<and>
        length px = 60 \<and>
        (\<forall>i<5. \<forall>j<4. \<forall>k<3.
           px ! ((i * 4 + j) * 3 + k) = (if 1 \<le> i \<and> i < 3 then 128 / 255 else 0))) \<and>
   (\<exists>px. reshape_face exact_float plain_lib img_2x4 [0, 0, 2, 4] (5, 3) True =
           Inr (NdArray [1, 5, 3, 1] px, [0, 0, 2, 4]) \<and>
        length px = 15 \<and>
        (\<forall>i<5. \<forall>j<3. \<forall>k<1.
           px ! ((i * 3 + j) * 1 + k) = (if 2 \<le> i \<and> i < 3 then 128 / 255 else 0)))"
proof (intro conjI)
  show "\<exists>px. reshape_face exact_float plain_lib img_2x4 [0, 0, 2, 4] (5, 4) False =
           Inr (NdArray [1, 5, 4, 3] px, [0, 0, 2, 4]) \<and>
        length px = 60 \<and>
        (\<forall>i<5. \<forall>j<4. \<forall>k<3.
           px ! ((i * 4 + j) * 3 + k) = (if 1 \<le> i \<and> i < 3 then 128 / 255 else 0))"
  proof -
    let ?img2 = "NdArray [2, 4, 3] (replicate 24 128) :: byte ndarray"
    have r: "resized_face exact_float plain_lib img_2x4 (5, 4) False = Inr ?img2"
      by (simp add: resized_face_def resize_to_fit_def axis_def img_2x4_def scaled_def
          exact_float_def cv2_resize_def plain_lib_def Let_def)
    have shp: "shape ?img2 = (if False then [2, 4] else [2, 4, 3])" by simp
    have ch: "False \<longrightarrow> (3::nat) = 1" by simp
    have len: "length (elems ?img2) = 2 * 4 * 3" by simp
    have fit: "(2::nat) \<le> 5" "(4::nat) \<le> 4" by simp_all
    have p: "(1::nat) = (5 - 2) div 2" "(2::nat) = 5 - 2 - 1" "(0::nat) = (4 - 4) div 2"
         "(0::nat) = 4 - 4 - 0"
      by simp_all
    from reshape_face_centered [OF r shp ch len fit p, of "[0, 0, 2, 4]"]
    obtain px where
      res: "reshape_face exact_float plain_lib img_2x4 [0, 0, 2, 4] (5, 4) False =
              Inr (NdArray [1, 5, 4, 3] px, [0, 0, 2, 4])"
      and l: "length px = 5 * 4 * 3"
      and n: "\<forall>i<5. \<forall>j<4. \<forall>k<3.
             px ! ((i * 4 + j) * 3 + k) =
               (if 1 \<le> i \<and> i < 1 + 2 \<and> 0 \<le> j \<and> j < 0 + 4
                then div255 plain_lib (to_float plain_lib
                       (elems ?img2 ! (((i - 1) * 4 + (j - 0)) * 3 + k)))
                else div255 plain_lib (to_float plain_lib 0))"
      by blast
    have "\<forall>i<5. \<forall>j<4. \<forall>k<3.
             px ! ((i * 4 + j) * 3 + k) = (if 1 \<le> i \<and> i < 3 then 128 / 255 else 0)"
    proof (intro allI impI)
      fix i j k :: nat
      assume i: "i < 5" and j: "j < 4" and k: "k < 3"
      have b: "1 \<le> i \<Longrightarrow> i < 3 \<Longrightarrow> ((i - 1) * 4 + j) * 3 + k < 24"
        using j k by simp
      from n i j k have "px ! ((i * 4 + j) * 3 + k) =
               (if 1 \<le> i \<and> i < 1 + 2 \<and> 0 \<le> j \<and> j < 0 + 4
                then div255 plain_lib (to_float plain_lib
                       (elems ?img2 ! (((i - 1) * 4 + (j - 0)) * 3 + k)))
                else div255 plain_lib (to_float plain_lib 0))"
        by blast
      with j b show "px ! ((i * 4 + j) * 3 + k) = (if 1 \<le> i \<and> i < 3 then 128 / 255 else 0)"
        by (simp add: plain_lib_def)
    qed
    with res l show ?thesis by auto
  qed
next
  show "\<exists>px. reshape_face exact_float plain_lib img_2x4 [0, 0, 2, 4] (5, 3) True =
           Inr (NdArray [1, 5, 3, 1] px, [0, 0, 2, 4]) \<and>
        length px = 15 \<and>
        (\<forall>i<5. \<forall>j<3. \<forall>k<1.
           px ! ((i * 3 + j) * 1 + k) = (if 2 \<le> i \<and> i < 3 then 128 / 255 else 0))"
  proof -
    let ?img2 = "NdArray [1, 3] (replicate 3 128) :: byte ndarray"
    have sc: "scaled exact_float 2 4 (5, 3) = (3, 1)" by code_simp
    have r: "resized_face exact_float plain_lib img_2x4 (5, 3) True = Inr ?img2"
      by (simp add: resized_face_def resize_to_fit_def axis_def img_2x4_def sc cvtColor_gray_def
          cv2_resize_def plain_lib_def Let_def)
    have shp: "shape ?img2 = (if True then [1, 3] else [1, 3, 1])" by simp
    have ch: "True \<longrightarrow> (1::nat) = 1" by simp
    have len: "length (elems ?img2) = 1 * 3 * 1" by simp
    have fit: "(1::nat) \<le> 5" "(3::nat) \<le> 3" by simp_all
    have p: "(2::nat) = (5 - 1) div 2" "(2::nat) = 5 - 1 - 2" "(0::nat) = (3 - 3) div 2"
         "(0::nat) = 3 - 3 - 0"
      by simp_all
    from reshape_face_centered [OF r shp ch len fit p, of "[0, 0, 2, 4]"]
    obtain px where
      res: "reshape_face exact_float plain_lib img_2x4 [0, 0, 2, 4] (5, 3) True =
              Inr (NdArray [1, 5, 3, 1] px, [0, 0, 2, 4])"
      and l: "length px = 5 * 3 * 1"
      and n: "\<forall>i<5. \<forall>j<3. \<forall>k<1.
             px ! ((i * 3 + j) * 1 + k) =
               (if 2 \<le> i \<and> i < 2 + 1 \<and> 0 \<le> j \<and> j < 0 + 3
                then div255 plain_lib (to_float plain_lib
                       (elems ?img2 ! (((i - 2) * 3 + (j - 0)) * 1 + k)))
                else div255 plain_lib (to_float plain_lib 0))"
      by blast
    have "\<forall>i<5. \<forall>j<3. \<forall>k<1.
             px ! ((i * 3 + j) * 1 + k) = (if 2 \<le> i \<and> i < 3 then 128 / 255 else 0)"
    proof (intro allI impI)
      fix i j k :: nat
      assume i: "i < 5" and j: "j < 3" and k: "k < 1"
      have b: "2 \<le> i \<Longrightarrow> i < 3 \<Longrightarrow> ((i - 2) * 3 + j) * 1 + k < 3"
        using j k by simp
      from n i j k have "px ! ((i * 3 + j) * 1 + k) =
               (if 2 \<le> i \<and> i < 2 + 1 \<and> 0 \<le> j \<and> j < 0 + 3
                then div255 plain_lib (to_float plain_lib
                       (elems ?img2 ! (((i - 2) * 3 + (j - 0)) * 1 + k)))
                else div255 plain_lib (to_float plain_lib 0))"
        by blast
      with j k b show "px ! ((i * 3 + j) * 1 + k) = (if 2 \<le> i \<and> i < 3 then 128 / 255 else 0)"
        by (simp add: plain_lib_def)
    qed
    with res l show ?thesis by auto
  qed
qed

text \<open>
  For a non-empty image of three channels, let \<open>(dw, dh)\<close> be the \<open>dsize\<close> that
  \<open>reshape_face\<close> computes for the resize. When both components are at least one and
  within the target, the output tensor has the shape
  \<open>(1, target_size[0], target_size[1], channels)\<close>.
\<close>

lemma reshape_face_shape:
  assumes shp: "shape img = [h, w, 3]" and h: "0 < h" and w: "0 < w"
      and sc: "scaled fl h w (t0, t1) = (dw, dh)"
      and fit: "0 < dw" "0 < dh" "dh \<le> int t0" "dw \<le> int t1"
  shows "\<exists>px. reshape_face fl lib img region (t0, t1) grayscale =
                Inr (NdArray [1, t0, t1, if grayscale then 1 else 3] px, region)"
proof -
  let ?d0 = "int t0 - dh" and ?d1 = "int t1 - dw"
  have p0: "0 \<le> ?d0 div 2 \<and> 0 \<le> ?d0 - ?d0 div 2 \<and>
            nat (?d0 div 2) + nat dh + nat (?d0 - ?d0 div 2) = t0"
    using fit by (intro conjI) linarith+
  have p1: "0 \<le> ?d1 div 2 \<and> 0 \<le> ?d1 - ?d1 div 2 \<and>
            nat (?d1 div 2) + nat dw + nat (?d1 - ?d1 div 2) = t1"
    using fit by (intro conjI) linarith+
  show ?thesis
  proof (cases grayscale)
    case True
    have r: "resized_face fl lib img (t0, t1) True =
               Inr (NdArray [nat dh, nat dw]
                      (resize_px lib (NdArray [h, w] (gray_px lib img)) (nat dw) (nat dh)))"
      using fit sc by (simp add: resized_face_gray [OF shp h w] Let_def)
    show ?thesis
      using True fit p0 p1
      by (simp add: reshape_face_def r padding_def axis_def np_pad_def double_check_def
          to_tensor_def img_to_array_def Let_def)
  next
    case False
    have r: "resized_face fl lib img (t0, t1) False =
               Inr (NdArray [nat dh, nat dw, 3] (resize_px lib img (nat dw) (nat dh)))"
      using fit sc by (simp add: resized_face_color [OF shp h w] Let_def)
    show ?thesis
      using False fit p0 p1
      by (simp add: reshape_face_def r padding_def axis_def np_pad_def double_check_def
          to_tensor_def img_to_array_def Let_def)
  qed
qed

text \<open>
  C5. The claim asks for an output of the target size for every non-empty image, the
  images of one row included. On an image of one row and a thousand columns with the
  target 224 by 224 the factor is 0.224, the height of \<open>dsize\<close> is \<open>int(0.224) = 0\<close>, and
  \<^verbatim>\<open>cv2.resize\<close> raises: there is no output.
\<close>

theorem reshape_face_thin_image:
  "reshape_face exact_float plain_lib img_1x1000 [0, 0, 1, 1000] (224, 224) False = Inl CvError"
  by (simp add: reshape_face_def resized_face_def resize_to_fit_def axis_def img_1x1000_def
      scaled_def exact_float_def cv2_resize_def Let_def)

text \<open>
  An image without a channel axis, gray not being asked for, is not an input of this
  function: \<^verbatim>\<open>np.pad\<close> is given three pairs for two axes and raises.
\<close>

lemma reshape_face_two_axes:
  "reshape_face exact_float plain_lib gray_2x4 [0, 0, 2, 4] (4, 4) False = Inl (Raised ''ValueError'')"
  by (simp add: reshape_face_def resized_face_def resize_to_fit_def axis_def gray_2x4_def
      scaled_def exact_float_def cv2_resize_def padding_def np_pad_def Let_def)

text \<open>
  More generally \<^verbatim>\<open>cv2.resize\<close> raises whenever a component of \<open>dsize\<close> is not
  positive, and without rounding the components of \<open>dsize\<close> never exceed the target.
\<close>

lemma reshape_face_empty_dsize:
  assumes shp: "shape img = [h, w, 3]" and h: "0 < h" and w: "0 < w"
      and sc: "scaled fl h w (t0, t1) = (dw, dh)"
      and "dw \<le> 0 \<or> dh \<le> 0"
  shows "reshape_face fl lib img region (t0, t1) grayscale = Inl CvError"
  using assms(5) sc
  by (cases grayscale)
     (auto simp add: reshape_face_def resized_face_gray [OF shp h w]
        resized_face_color [OF shp h w] Let_def)

lemma scaled_exact_fits:
  assumes "0 < h" and "0 < w" and "scaled exact_float h w (t0, t1) = (dw, dh)"
  shows "0 \<le> dw \<and> dw \<le> int t1 \<and> 0 \<le> dh \<and> dh \<le> int t0"
proof -
  define f0 :: rat where "f0 = of_nat t0 / of_nat h"
  define f1 :: rat where "f1 = of_nat t1 / of_nat w"
  define f where "f = (if f1 < f0 then f1 else f0)"
  have f0: "0 \<le> f0" and f1: "0 \<le> f1" by (simp_all add: f0_def f1_def)
  have f: "0 \<le> f" "f \<le> f0" "f \<le> f1" using f0 f1 by (simp_all add: f_def)
  have hw: "of_nat h * f0 = (of_nat t0 :: rat)" "of_nat w * f1 = (of_nat t1 :: rat)"
    using assms(1,2) by (simp_all add: f0_def f1_def)
  have nn: "\<not> of_nat w * f < 0" "\<not> of_nat h * f < 0"
    using f(1) by (simp_all add: not_less)
  have "scaled exact_float h w (t0, t1) =
          (if of_nat w * f < 0 then \<lceil>of_nat w * f\<rceil> else \<lfloor>of_nat w * f\<rfloor>,
           if of_nat h * f < 0 then \<lceil>of_nat h * f\<rceil> else \<lfloor>of_nat h * f\<rfloor>)"
    by (simp add: scaled_def exact_float_def Let_def f_def f0_def f1_def)
  with nn assms(3) have dw: "dw = \<lfloor>of_nat w * f\<rfloor>" and dh: "dh = \<lfloor>of_nat h * f\<rfloor>"
    by simp_all
  have "of_nat w * f \<le> of_nat w * f1" "of_nat h * f \<le> of_nat h * f0"
    using f by (simp_all add: mult_left_mono)
  then have le: "of_nat w * f \<le> (of_nat t1 :: rat)" "of_nat h * f \<le> (of_nat t0 :: rat)"
    using hw by simp_all
  have "\<lfloor>of_nat w * f\<rfloor> \<le> int t1" "\<lfloor>of_nat h * f\<rfloor> \<le> int t0"
    using floor_mono [OF le(1)] floor_mono [OF le(2)] by simp_all
  moreover have "0 \<le> \<lfloor>of_nat w * f\<rfloor>" "0 \<le> \<lfloor>of_nat h * f\<rfloor>"
    using f(1) by simp_all
  ultimately show ?thesis using dw dh by simp
qed


section \<open>Properties of the pixel normalizer\<close>





text \<open>\<open>assign_inplace\<close> changes the array of one reference and nothing else.\<close>

lemma heap_assign_inplace:
  "heap (assign_inplace f r s) r' = (if r' = r then elementwise f (heap s r) else heap s r')"
  by (simp add: assign_inplace_def)





lemma elementwise_map: "elementwise (\<lambda>i x. f x) a = NdArray (shape a) (map f (elems a))"
proof -
  have "\<And>n xs. map (\<lambda>(i, x). f x) (enumerate n xs) = map f xs"
  proof -
    fix n :: nat and xs :: "'a list"
    show "map (\<lambda>(i, x). f x) (enumerate n xs) = map f xs"
      by (induction xs arbitrary: n) simp_all
  qed
  then show ?thesis by (simp add: elementwise_def)
qed

text \<open>
  C10. For a scheme name outside the seven that the function knows, \<open>normalize_input\<close>
  raises nothing: it returns the reference it was given, the array of that reference
  holds the elements multiplied by 255, and result and store are those of the scheme
  \<^verbatim>\<open>raw\<close>.
\<close>

theorem normalize_input_unknown:
  assumes "normalization \<notin> {''base'', ''raw'', ''Facenet'', ''Facenet2018'', ''VGGFace'',
                              ''VGGFace2'', ''ArcFace''}"
  shows "fst (normalize_input np img normalization s) = Inr img \<and>
         heap (snd (normalize_input np img normalization s)) img =
           NdArray (shape (heap s img)) (map (\<lambda>x. fmul np x (lit np 255)) (elems (heap s img))) \<and>
         normalize_input np img normalization s = normalize_input np img ''raw'' s"
  using assms
  by (simp add: normalize_input_def Let_def heap_assign_inplace elementwise_map)

theorem normalize_input_unknown_witness:
  "''OpenFace'' \<notin> {''base'', ''raw'', ''Facenet'', ''Facenet2018'', ''VGGFace'', ''VGGFace2'', ''ArcFace''} \<and>
   fst (normalize_input exact_np 0 ''OpenFace'' sample_store) = Inr 0 \<and>
   heap (snd (normalize_input exact_np 0 ''OpenFace'' sample_store)) 0 =
     NdArray [1, 1, 2, 3] [0, 255 / 2, 255, 255, 0, 255 / 2] \<and>
   normalize_input exact_np 0 ''OpenFace'' sample_store =
     normalize_input exact_np 0 ''raw'' sample_store"
proof -
  have n: "''OpenFace'' \<notin> {''base'', ''raw'', ''Facenet'', ''Facenet2018'', ''VGGFace'', ''VGGFace2'', ''ArcFace''}"
    by simp
  have v: "NdArray (shape (heap sample_store 0))
             (map (\<lambda>x. fmul exact_np x (lit exact_np 255)) (elems (heap sample_store 0))) =
           NdArray [1, 1, 2, 3] [0, 255 / 2, 255, 255, 0, 255 / 2]"
    by (simp add: sample_store_def exact_np_def)
  from normalize_input_unknown [OF n, of exact_np 0 sample_store] n show ?thesis
    unfolding v by blast
qed






end
